theory Spec2Isabelle
  imports Main
begin

section \<open>Characters and strings\<close>

text \<open>
  The program is Python; its strings are sequences of code points. The model uses
  \<^typ>\<open>string\<close>, whose characters are the code points 0 to 255, and gives the
  interpreter's character tables on that range: \<^verbatim>\<open>str.isspace\<close> (which is also the
  class \<^verbatim>\<open>\s\<close> of \<^verbatim>\<open>re\<close> on a \<^verbatim>\<open>str\<close> pattern and the set removed by
  \<^verbatim>\<open>str.strip()\<close>), \<^verbatim>\<open>str.isupper\<close> and \<^verbatim>\<open>str.lower\<close>.
\<close>

definition py_isspace :: "char \<Rightarrow> bool" where
  "py_isspace c =
     (let n = (of_char c :: nat)
      in (9 \<le> n \<and> n \<le> 13) \<or> (28 \<le> n \<and> n \<le> 32) \<or> n = 133 \<or> n = 160)"

definition py_isupper :: "char \<Rightarrow> bool" where
  "py_isupper c =
     (let n = (of_char c :: nat)
      in (65 \<le> n \<and> n \<le> 90) \<or> (192 \<le> n \<and> n \<le> 222 \<and> n \<noteq> 215))"

definition lower_char :: "char \<Rightarrow> char" where
  "lower_char c = (if py_isupper c then char_of ((of_char c :: nat) + 32) else c)"

definition lower :: "string \<Rightarrow> string" where
  "lower s = map lower_char s"

text \<open>\<^verbatim>\<open>str.rstrip()\<close> and \<^verbatim>\<open>str.strip()\<close>: whitespace is removed from the end, from both ends.\<close>

definition rstrip :: "string \<Rightarrow> string" where
  "rstrip s = rev (dropWhile py_isspace (rev s))"

definition strip :: "string \<Rightarrow> string" where
  "strip s = rstrip (dropWhile py_isspace s)"

text \<open>
  \<^verbatim>\<open>re.sub(r"\s+", " ", text)\<close>: scanning from the left, every maximal run of
  whitespace is replaced by one space; the other characters are copied.
\<close>

function re_sub_ws :: "string \<Rightarrow> string" where
  "re_sub_ws [] = []"
| "re_sub_ws (c # cs) =
     (if py_isspace c then CHR '' '' # re_sub_ws (dropWhile py_isspace cs)
      else c # re_sub_ws cs)"
  by pat_completeness auto
termination
  by (relation "measure length") (auto simp: length_dropWhile_le less_Suc_eq_le)

section \<open>Text normalization\<close>

text \<open>
  \<^verbatim>\<open>
  def normalize(text: str):
      if not text:
          return ""
      return re.sub(r"\s+", " ", text).strip().lower()
  \<close>
  The argument may be absent (\<^verbatim>\<open>None\<close>), which \<^verbatim>\<open>not text\<close> treats like the empty
  string.
\<close>

definition normalize_text :: "string option \<Rightarrow> string" where
  "normalize_text text =
     (case text of
        None \<Rightarrow> []
      | Some t \<Rightarrow> if t = [] then [] else lower (strip (re_sub_ws t)))"

text \<open>
  The specification's wording of the same function: the words of the text (its maximal
  runs of characters that are not whitespace), joined by single spaces, in lower case.
\<close>

function ws_words :: "string \<Rightarrow> string list" where
  "ws_words s =
     (case dropWhile py_isspace s of
        [] \<Rightarrow> []
      | c # cs \<Rightarrow> takeWhile (\<lambda>x. \<not> py_isspace x) (c # cs)
                 # ws_words (dropWhile (\<lambda>x. \<not> py_isspace x) (c # cs)))"
  by pat_completeness auto
termination
proof (relation "measure length", simp, goal_cases)
  case (1 s c cs)
  have "\<not> py_isspace c"
    using hd_dropWhile [of py_isspace s] 1 by simp
  then have "length (dropWhile (\<lambda>x. \<not> py_isspace x) (c # cs)) \<le> length cs"
    by (simp add: length_dropWhile_le)
  moreover have "length (c # cs) \<le> length s"
    using length_dropWhile_le [of py_isspace s] 1 by simp
  ultimately show ?case by simp
qed

declare ws_words.simps [simp del]

fun join_sp :: "string list \<Rightarrow> string" where
  "join_sp [] = []"
| "join_sp [w] = w"
| "join_sp (w # v # ws) = w @ CHR '' '' # join_sp (v # ws)"

text \<open>Word lists as \<open>ws_words\<close> produces them: no word is empty or holds whitespace.\<close>

definition good_words :: "string list \<Rightarrow> bool" where
  "good_words ws = (\<forall>w\<in>set ws. w \<noteq> [] \<and> (\<forall>c\<in>set w. \<not> py_isspace c))"


section \<open>Range parsing\<close>

text \<open>
  The built-in \<^verbatim>\<open>int(s)\<close> on a string: whitespace around the literal is skipped
  (the six ASCII blanks, and the code points 133 and 160, which the interpreter turns
  into blanks first; the separators 28 to 31 are not skipped), then an optional sign,
  then decimal digits, where single underscores may stand between digits. Anything
  else raises \<^verbatim>\<open>ValueError\<close>, here \<open>None\<close>. The interpreter's configurable
  limit on the number of digits is not part of the model.
\<close>

definition int_space :: "char \<Rightarrow> bool" where
  "int_space c =
     (let n = (of_char c :: nat)
      in (9 \<le> n \<and> n \<le> 13) \<or> n = 32 \<or> n = 133 \<or> n = 160)"

definition is_digit :: "char \<Rightarrow> bool" where
  "is_digit c = (let n = (of_char c :: nat) in 48 \<le> n \<and> n \<le> 57)"

definition digit_val :: "char \<Rightarrow> int" where
  "digit_val c = int (of_char c) - 48"

fun py_digits :: "int \<Rightarrow> string \<Rightarrow> int option" where
  "py_digits acc [] = Some acc"
| "py_digits acc (c # cs) =
     (if is_digit c then py_digits (10 * acc + digit_val c) cs
      else if c = CHR ''_'' then
        (case cs of
           [] \<Rightarrow> None
         | d # ds \<Rightarrow> if is_digit d then py_digits (10 * acc + digit_val d) ds else None)
      else None)"

definition py_unsigned :: "string \<Rightarrow> int option" where
  "py_unsigned body =
     (case body of
        [] \<Rightarrow> None
      | d # ds \<Rightarrow> if is_digit d then py_digits (digit_val d) ds else None)"

definition py_int :: "string \<Rightarrow> int option" where
  "py_int s =
     (case rev (dropWhile int_space (rev (dropWhile int_space s))) of
        [] \<Rightarrow> None
      | c # cs \<Rightarrow>
          if c = CHR ''+'' then py_unsigned cs
          else if c = CHR ''-'' then map_option uminus (py_unsigned cs)
          else py_unsigned (c # cs))"

text \<open>\<^verbatim>\<open>r.split(sep)\<close> for a separator of one character: the pieces between its occurrences.\<close>

fun split_on :: "char \<Rightarrow> string \<Rightarrow> string list" where
  "split_on sep [] = [[]]"
| "split_on sep (c # cs) =
     (if c = sep then [] # split_on sep cs
      else (case split_on sep cs of
              [] \<Rightarrow> [[c]]
            | p # ps \<Rightarrow> (c # p) # ps))"

text \<open>
  The errors of \<^verbatim>\<open>parse_range\<close>, all of them \<^verbatim>\<open>ValueError\<close> in the source: the four
  it raises itself, and the two the interpreter raises in
  \<^verbatim>\<open>start, end = r.split("-")\<close> (more than two pieces) and in \<^verbatim>\<open>int(...)\<close>.
\<close>

datatype range_error =
    NotStartEnd
  | TooManyValues
  | InvalidLiteral string
  | PagesBelowOne
  | StartAfterEnd
  | ExceedsLength int

text \<open>
  \<^verbatim>\<open>
  def parse_range(r: str, total: int):
      if "-" not in r:
          raise ValueError("Page range must be in start-end format")
      start, end = r.split("-")
      start, end = int(start), int(end)
      if start < 1 or end < 1:
          raise ValueError("Pages must be >= 1")
      if start > end:
          raise ValueError("Start cannot be greater than end")
      if end > total:
          raise ValueError(f"Page range exceeds document length ({total})")
      return start, end
  \<close>
\<close>

definition parse_range :: "string \<Rightarrow> int \<Rightarrow> range_error + (int \<times> int)" where
  "parse_range r total' =
     (if CHR ''-'' \<notin> set r then Inl NotStartEnd
      else
        (case split_on CHR ''-'' r of
           [a, b] \<Rightarrow>
             (case py_int a of
                None \<Rightarrow> Inl (InvalidLiteral a)
              | Some start \<Rightarrow>
                  (case py_int b of
                     None \<Rightarrow> Inl (InvalidLiteral b)
                   | Some end' \<Rightarrow>
                       if start < 1 \<or> end' < 1 then Inl PagesBelowOne
                       else if start > end' then Inl StartAfterEnd
                       else if end' > total' then Inl (ExceedsLength total')
                       else Inr (start, end')))
         | _ \<Rightarrow> Inl TooManyValues))"

text \<open>
  The forms of a range string the specification speaks of. An integer literal is a
  string \<^verbatim>\<open>int\<close> accepts; \<open>int_dash_int\<close> holds when some \<^verbatim>\<open>-\<close> of the string has
  an integer literal on each side. A format error is one of the three errors that are
  not about the values of the pages.
\<close>

definition int_dash_int :: "string \<Rightarrow> bool" where
  "int_dash_int r =
     (\<exists>i \<in> set [0..<length r].
        r ! i = CHR ''-'' \<and> py_int (take i r) \<noteq> None \<and> py_int (drop (Suc i) r) \<noteq> None)"


section \<open>Documents and the environment\<close>

text \<open>
  What the program sees of the PDF library and of the file system. A page is what
  \<^verbatim>\<open>reader.pages[i]\<close> returns: \<^verbatim>\<open>extract_text()\<close> gives its text, or nothing;
  the rest of the page is opaque. A path names nothing, a file \<^verbatim>\<open>PdfReader\<close> rejects,
  or a document, which is the list of its pages. \<open>writable\<close> tells whether
  \<^verbatim>\<open>open(name, "wb")\<close> succeeds.
\<close>

datatype page = Page (extract_text: "string option") (content: nat)

datatype pdf_file = Unreadable | Pdf "page list"

record world =
  files :: "string \<Rightarrow> pdf_file option"
  writable :: "string \<Rightarrow> bool"

text \<open>
  What an operation prints last, and the ways it stops early: \<^verbatim>\<open>sys.exit(1)\<close> after
  a message, or an exception nobody catches.
\<close>

datatype message =
    FileNotFound string
  | ErrorOpening
  | RangeMessage range_error
  | NotFound
  | FoundOnPages "int list"
  | SavedAs string
  | Help
  | UsageError
  | Traceback

datatype abort = SysExit int message | UncaughtIndexError | UncaughtOSError

section \<open>Search\<close>

text \<open>\<^verbatim>\<open>needle in hay\<close> on strings: \<open>needle\<close> occurs in \<open>hay\<close> at some position.\<close>

fun py_in :: "string \<Rightarrow> string \<Rightarrow> bool" where
  "py_in needle [] = (needle = [])"
| "py_in needle (c # cs) = (take (length needle) (c # cs) = needle \<or> py_in needle cs)"

text \<open>
  The loop of \<^verbatim>\<open>search_pdf\<close>:
  \<^verbatim>\<open>
  for i in range(total_pages):
      text = reader.pages[i].extract_text() or ""
      if normalized_query in normalize(text):
          matches.append(i + 1)
  \<close>
\<close>

definition text_or_empty :: "string option \<Rightarrow> string" where
  "text_or_empty t = (case t of None \<Rightarrow> [] | Some s \<Rightarrow> s)"

function scan_pages :: "string \<Rightarrow> page list \<Rightarrow> nat \<Rightarrow> int list \<Rightarrow> int list" where
  "scan_pages normalized_query pages i matches =
     (if i < length pages then
        (let text = text_or_empty (extract_text (pages ! i))
         in scan_pages normalized_query pages (i + 1)
              (if py_in normalized_query (normalize_text (Some text))
               then matches @ [int i + 1] else matches))
      else matches)"
  by pat_completeness auto
termination
  by (relation "measure (\<lambda>(q, pages, i, matches). length pages - i)") auto

declare scan_pages.simps [simp del]

definition search_report :: "int list \<Rightarrow> message" where
  "search_report matches = (if matches = [] then NotFound else FoundOnPages matches)"

text \<open>
  \<^verbatim>\<open>search_pdf\<close> returns nothing in the source; the model returns the list
  \<^verbatim>\<open>matches\<close> the final report is printed from.
\<close>

definition search_pdf :: "world \<Rightarrow> string \<Rightarrow> string \<Rightarrow> abort + int list" where
  "search_pdf w pdf_path query =
     (case files w pdf_path of
        None \<Rightarrow> Inl (SysExit 1 (FileNotFound pdf_path))
      | Some Unreadable \<Rightarrow> Inl (SysExit 1 ErrorOpening)
      | Some (Pdf pages) \<Rightarrow> Inr (scan_pages (normalize_text (Some query)) pages 0 []))"

section \<open>Split\<close>

text \<open>\<^verbatim>\<open>str(n)\<close> of an integer, as the f-string of the output name prints it.\<close>

fun str_nat :: "nat \<Rightarrow> string" where
  "str_nat n =
     (if n < 10 then [char_of (48 + n)]
      else str_nat (n div 10) @ [char_of (48 + n mod 10)])"

declare str_nat.simps [simp del]

definition py_str :: "int \<Rightarrow> string" where
  "py_str i = (if i < 0 then CHR ''-'' # str_nat (nat (- i)) else str_nat (nat i))"

text \<open>\<^verbatim>\<open>xs[i]\<close>: an index below zero counts from the end, one out of range raises.\<close>

definition py_index :: "'a list \<Rightarrow> int \<Rightarrow> 'a option" where
  "py_index xs i =
     (if 0 \<le> i \<and> i < int (length xs) then Some (xs ! nat i)
      else if i < 0 \<and> - int (length xs) \<le> i then Some (xs ! nat (int (length xs) + i))
      else None)"

text \<open>
  The loop of \<^verbatim>\<open>split_pdf\<close>:
  \<^verbatim>\<open>
  for page_index in range(start - 1, end):
      writer.add_page(reader.pages[page_index])
  \<close>
\<close>

function add_pages :: "page list \<Rightarrow> int \<Rightarrow> int \<Rightarrow> page list \<Rightarrow> abort + page list" where
  "add_pages pages page_index end' writer =
     (if page_index < end' then
        (case py_index pages page_index of
           None \<Rightarrow> Inl UncaughtIndexError
         | Some p \<Rightarrow> add_pages pages (page_index + 1) end' (writer @ [p]))
      else Inr writer)"
  by pat_completeness auto
termination
  by (relation "measure (\<lambda>(pages, page_index, end', writer). nat (end' - page_index))") auto

declare add_pages.simps [simp del]

definition output_file :: "string \<Rightarrow> int \<Rightarrow> int \<Rightarrow> string" where
  "output_file output_name start end' =
     output_name @ ''_p_'' @ py_str start @ ''-'' @ py_str end' @ ''.pdf''"

text \<open>
  \<^verbatim>\<open>split_pdf\<close>; \<open>output_name\<close> is what \<^verbatim>\<open>Prompt.ask('New Filename? ')\<close> returns.
  On success the model returns the name of the file written and the world with that
  file in it. The size the source prints after the name is left out.
\<close>

definition split_pdf :: "world \<Rightarrow> string \<Rightarrow> string \<Rightarrow> string \<Rightarrow> abort + (string \<times> world)" where
  "split_pdf w pdf_path range_str output_name =
     (case files w pdf_path of
        None \<Rightarrow> Inl (SysExit 1 (FileNotFound pdf_path))
      | Some Unreadable \<Rightarrow> Inl (SysExit 1 ErrorOpening)
      | Some (Pdf pages) \<Rightarrow>
          (case parse_range range_str (int (length pages)) of
             Inl e \<Rightarrow> Inl (SysExit 1 (RangeMessage e))
           | Inr (start, end') \<Rightarrow>
               (let output = output_file output_name start end'
                in case add_pages pages (start - 1) end' [] of
                     Inl a \<Rightarrow> Inl a
                   | Inr writer \<Rightarrow>
                       if writable w output
                       then Inr (output, w\<lparr>files := (files w)(output \<mapsto> Pdf writer)\<rparr>)
                       else Inl UncaughtOSError)))"

section \<open>Command line\<close>

text \<open>
  The parser \<^verbatim>\<open>main\<close> builds has one optional positional \<^verbatim>\<open>command\<close>, a
  sub-command out of \<^verbatim>\<open>search\<close> and \<^verbatim>\<open>split\<close>, each with two positionals.
  \<open>parse_args\<close> gives what \<^verbatim>\<open>parser.parse_args()\<close> does on command lines without
  option syntax: it returns the namespace, or reports a usage error and leaves with
  status 2 (an unknown command, or a wrong number of arguments). A command line with an
  argument that starts with \<^verbatim>\<open>-\<close> is outside the model: \<open>None\<close>. The fields of
  the namespace are \<^verbatim>\<open>args.command\<close>, \<^verbatim>\<open>args.pdf\<close>, \<^verbatim>\<open>args.query\<close> and
  \<^verbatim>\<open>args.range\<close>; a field the sub-command does not have is left empty.
\<close>

record namespace =
  arg_command :: "string option"
  arg_pdf :: string
  arg_query :: string
  arg_range :: string

definition option_syntax :: "string \<Rightarrow> bool" where
  "option_syntax a = (case a of [] \<Rightarrow> False | c # cs \<Rightarrow> c = CHR ''-'')"

definition parse_args :: "string list \<Rightarrow> (abort + namespace) option" where
  "parse_args argv =
     (if \<exists>a \<in> set argv. option_syntax a then None
      else
        (case argv of
           [] \<Rightarrow> Some (Inr \<lparr>arg_command = None, arg_pdf = [], arg_query = [], arg_range = []\<rparr>)
         | c # rest \<Rightarrow>
             if c = ''search'' then
               (case rest of
                  [p, q] \<Rightarrow> Some (Inr \<lparr>arg_command = Some c, arg_pdf = p, arg_query = q, arg_range = []\<rparr>)
                | _ \<Rightarrow> Some (Inl (SysExit 2 UsageError)))
             else if c = ''split'' then
               (case rest of
                  [p, r] \<Rightarrow> Some (Inr \<lparr>arg_command = Some c, arg_pdf = p, arg_query = [], arg_range = r\<rparr>)
                | _ \<Rightarrow> Some (Inl (SysExit 2 UsageError)))
             else Some (Inl (SysExit 2 UsageError))))"

text \<open>
  The exit status of the process and the last thing it printed: status 0 when
  \<^verbatim>\<open>main\<close> returns, the status given to \<^verbatim>\<open>sys.exit\<close>, status 1 with a traceback
  for an uncaught exception.
\<close>

fun finish :: "abort \<Rightarrow> int \<times> message" where
  "finish (SysExit n m) = (n, m)"
| "finish UncaughtIndexError = (1, Traceback)"
| "finish UncaughtOSError = (1, Traceback)"

text \<open>
  \<^verbatim>\<open>
  args = parser.parse_args()
  if args.command == "search":
      search_pdf(Path(args.pdf), args.query)
  elif args.command == "split":
      split_pdf(Path(args.pdf), args.range)
  else:
      parser.print_help()
  \<close>
\<close>

definition main :: "world \<Rightarrow> string \<Rightarrow> string list \<Rightarrow> ((int \<times> message) \<times> world) option" where
  "main w output_name argv =
     (case parse_args argv of
        None \<Rightarrow> None
      | Some (Inl a) \<Rightarrow> Some (finish a, w)
      | Some (Inr args) \<Rightarrow>
          if arg_command args = Some ''search'' then
            (case search_pdf w (arg_pdf args) (arg_query args) of
               Inl a \<Rightarrow> Some (finish a, w)
             | Inr matches \<Rightarrow> Some ((0, search_report matches), w))
          else if arg_command args = Some ''split'' then
            (case split_pdf w (arg_pdf args) (arg_range args) output_name of
               Inl a \<Rightarrow> Some (finish a, w)
             | Inr (output, w') \<Rightarrow> Some ((0, SavedAs output), w'))
          else Some ((0, Help), w))"

section \<open>Specification predicates and examples\<close>

text \<open>
  A page matches a query when the normalized query occurs in the normalized text of the
  page, stated without the program's own test for containment.
\<close>

definition page_matches :: "string \<Rightarrow> page \<Rightarrow> bool" where
  "page_matches query p =
     (\<exists>pre post. normalize_text (Some (text_or_empty (extract_text p)))
        = pre @ normalize_text (Some query) @ post)"

text \<open>A world with one document of three pages, the second of them without text.\<close>

definition example_world :: world where
  "example_world = \<lparr>files = (\<lambda>p. if p = ''a.pdf'' then Some (Pdf [Page (Some ''Hello  World'') 0, Page None 1, Page (Some ''say HELLO world'') 2]) else None),
          writable = (\<lambda>p. True)\<rparr>"

text \<open>A world with a document of a hundred pages, where every file can be written.\<close>

definition example_book :: world where
  "example_book =
     \<lparr>files = (\<lambda>p. if p = ''book.pdf'' then Some (Pdf (map (Page None) [0..<100])) else None),
      writable = (\<lambda>p. True)\<rparr>"

section \<open>Properties of normalization\<close>

lemma py_isspace_lower_char: "py_isspace (lower_char c) = py_isspace c"
  by (auto simp: lower_char_def py_isspace_def py_isupper_def Let_def)

lemma not_upper_lower_char: "\<not> py_isupper (lower_char c)"
  by (auto simp: lower_char_def py_isupper_def Let_def)

lemma lower_char_idem: "lower_char (lower_char c) = lower_char c"
  using not_upper_lower_char [of c] by (simp add: lower_char_def [of "lower_char c"])

lemma space_isspace: "py_isspace CHR '' ''"
  by (simp add: py_isspace_def)

lemma re_sub_ws_word: "\<forall>c\<in>set w. \<not> py_isspace c \<Longrightarrow> re_sub_ws (w @ r) = w @ re_sub_ws r"
  by (induction w) auto

lemma re_sub_ws_start: "s = [] \<or> \<not> py_isspace (hd s) \<Longrightarrow> dropWhile py_isspace (re_sub_ws s) = re_sub_ws s"
  by (cases s) auto

lemma lstrip_re_sub_ws: "dropWhile py_isspace (re_sub_ws s) = re_sub_ws (dropWhile py_isspace s)"
proof (cases s)
  case Nil then show ?thesis by simp
next
  case (Cons c cs)
  show ?thesis
  proof (cases "py_isspace c")
    case True
    have "dropWhile py_isspace cs = [] \<or> \<not> py_isspace (hd (dropWhile py_isspace cs))"
      using hd_dropWhile [of py_isspace cs] by blast
    then show ?thesis using Cons True space_isspace re_sub_ws_start by simp
  next
    case False then show ?thesis using Cons by simp
  qed
qed


lemma rstrip_Nil_iff: "rstrip s = [] \<longleftrightarrow> (\<forall>c\<in>set s. py_isspace c)"
  by (auto simp: rstrip_def)

lemma rstrip_append: "rstrip (a @ b) = (if rstrip b = [] then rstrip a else a @ rstrip b)"
  by (auto simp: rstrip_def dropWhile_append)

lemma rstrip_word: "w \<noteq> [] \<Longrightarrow> \<not> py_isspace (last w) \<Longrightarrow> rstrip w = w"
  by (cases w rule: rev_cases) (auto simp: rstrip_def)



lemma ws_words_Nil:
  assumes "dropWhile py_isspace s = []"
  shows "ws_words s = []"
  by (subst ws_words.simps) (simp only: assms list.case)

lemma ws_words_Cons:
  assumes "dropWhile py_isspace s = c # cs"
  shows "ws_words s = takeWhile (\<lambda>x. \<not> py_isspace x) (c # cs) # ws_words (dropWhile (\<lambda>x. \<not> py_isspace x) (c # cs))"
  by (subst ws_words.simps) (simp only: assms list.case)

lemma takeWhile_all: "\<forall>x\<in>set (takeWhile P xs). P x"
  by (induction xs) auto

lemma ws_words_good: "w \<in> set (ws_words s) \<Longrightarrow> w \<noteq> [] \<and> (\<forall>c\<in>set w. \<not> py_isspace c)"
proof (induction s rule: ws_words.induct)
  case (1 s)
  show ?case
  proof (cases "dropWhile py_isspace s")
    case Nil
    then have "ws_words s = []" by (rule ws_words_Nil)
    with 1(2) show ?thesis by simp
  next
    case (Cons c cs)
    have nc: "\<not> py_isspace c" using hd_dropWhile [of py_isspace s] Cons by simp
    have "w \<in> set (takeWhile (\<lambda>x. \<not> py_isspace x) (c # cs) # ws_words (dropWhile (\<lambda>x. \<not> py_isspace x) (c # cs)))"
      using 1(2) ws_words_Cons [OF Cons] by (simp only:)
    then have "w = takeWhile (\<lambda>x. \<not> py_isspace x) (c # cs) \<or> w \<in> set (ws_words (dropWhile (\<lambda>x. \<not> py_isspace x) (c # cs)))"
      by (simp only: set_ConsD list.set insert_iff)
    then show ?thesis
    proof
      assume w: "w = takeWhile (\<lambda>x. \<not> py_isspace x) (c # cs)"
      have "w \<noteq> []" unfolding w using nc by simp
      moreover have "\<forall>x\<in>set w. \<not> py_isspace x" unfolding w by (rule takeWhile_all)
      ultimately show ?thesis by blast
    next
      assume "w \<in> set (ws_words (dropWhile (\<lambda>x. \<not> py_isspace x) (c # cs)))"
      then show ?thesis by (rule 1(1) [OF Cons])
    qed
  qed
qed



lemma join_sp_Cons: "join_sp (w # ws) = (if ws = [] then w else w @ CHR '' '' # join_sp ws)"
  by (cases ws) auto

lemma join_sp_Nil_iff: "\<forall>w\<in>set ws. w \<noteq> [] \<Longrightarrow> join_sp ws = [] \<longleftrightarrow> ws = []"
  by (cases ws) (auto simp: join_sp_Cons)

lemma rstrip_re_sub_ws: "rstrip (re_sub_ws (dropWhile py_isspace s)) = join_sp (ws_words s)"
proof (induction s rule: ws_words.induct)
  case (1 s)
  show ?case
  proof (cases "dropWhile py_isspace s")
    case Nil
    have "ws_words s = []" using Nil by (rule ws_words_Nil)
    moreover have "rstrip (re_sub_ws (dropWhile py_isspace s)) = []"
      unfolding Nil by (simp add: rstrip_def)
    ultimately show ?thesis by simp
  next
    case (Cons c cs)
    define w where "w = takeWhile (\<lambda>x. \<not> py_isspace x) (c # cs)"
    define r where "r = dropWhile (\<lambda>x. \<not> py_isspace x) (c # cs)"
    have nc: "\<not> py_isspace c" using hd_dropWhile [of py_isspace s] Cons by simp
    have wr: "c # cs = w @ r" by (simp add: w_def r_def)
    have wN: "\<forall>x\<in>set w. \<not> py_isspace x" unfolding w_def by (rule takeWhile_all)
    have wne: "w \<noteq> []" using nc by (simp add: w_def)
    then have lastw: "\<not> py_isspace (last w)" using wN by simp
    have IH: "rstrip (re_sub_ws (dropWhile py_isspace r)) = join_sp (ws_words r)"
      using 1 [OF Cons] by (simp add: r_def)
    have words: "ws_words s = w # ws_words r"
      unfolding w_def r_def using Cons by (rule ws_words_Cons)
    have sub: "re_sub_ws (c # cs) = w @ re_sub_ws r"
      unfolding wr using wN by (rule re_sub_ws_word)
    have good: "\<forall>v\<in>set (ws_words r). v \<noteq> []" using ws_words_good by blast
    show ?thesis
    proof (cases r)
      case Nil
      have "ws_words r = []" by (rule ws_words_Nil) (simp add: Nil)
      moreover have "re_sub_ws (dropWhile py_isspace s) = w"
        unfolding Cons sub by (simp add: Nil)
      ultimately show ?thesis using words wne lastw
        by (simp add: rstrip_word)
    next
      case (Cons d ds)
      have "r = [] \<or> py_isspace (hd r)"
        using hd_dropWhile [of "\<lambda>x. \<not> py_isspace x" "c # cs"] unfolding r_def by blast
      then have d: "py_isspace d" using Cons by simp
      have subr: "re_sub_ws r = CHR '' '' # re_sub_ws (dropWhile py_isspace r)"
        using Cons d by simp
      let ?X = "re_sub_ws (dropWhile py_isspace r)"
      show ?thesis
      proof (cases "rstrip ?X = []")
        case True
        then have "rstrip (CHR '' '' # ?X) = []"
          using space_isspace by (simp add: rstrip_Nil_iff)
        then have "rstrip (w @ CHR '' '' # ?X) = w"
          using wne lastw by (simp add: rstrip_append rstrip_word)
        moreover have "ws_words r = []"
          using True IH join_sp_Nil_iff [OF good] by simp
        moreover have "re_sub_ws (dropWhile py_isspace s) = w @ CHR '' '' # ?X"
          unfolding \<open>dropWhile py_isspace s = c # cs\<close> sub subr by simp
        ultimately show ?thesis
          using words by simp
      next
        case False
        then have "rstrip (CHR '' '' # ?X) = CHR '' '' # rstrip ?X"
          using rstrip_append [of "[CHR '' '']" ?X] by simp
        then have "rstrip (w @ CHR '' '' # ?X) = w @ CHR '' '' # rstrip ?X"
          by (simp add: rstrip_append)
        moreover have "ws_words r \<noteq> []"
          using False IH by auto
        moreover have "re_sub_ws (dropWhile py_isspace s) = w @ CHR '' '' # ?X"
          unfolding \<open>dropWhile py_isspace s = c # cs\<close> sub subr by simp
        ultimately show ?thesis
          using words IH by (simp add: join_sp_Cons)
      qed
    qed
  qed
qed

lemma strip_re_sub_ws: "strip (re_sub_ws s) = join_sp (ws_words s)"
  using rstrip_re_sub_ws [of s] by (simp add: strip_def lstrip_re_sub_ws)

lemma normalize_words: "normalize_text (Some s) = map lower_char (join_sp (ws_words s))"
proof (cases "s = []")
  case True
  have "ws_words [] = []" by (rule ws_words_Nil) simp
  then show ?thesis using True by (simp add: normalize_text_def)
next
  case False
  then show ?thesis by (simp add: normalize_text_def lower_def strip_re_sub_ws)
qed

subsection \<open>Words after normalization\<close>

lemma good_ws_words: "good_words (ws_words s)"
  unfolding good_words_def using ws_words_good by blast

lemma lower_char_space: "lower_char CHR '' '' = CHR '' ''"
  by (simp add: lower_char_def py_isupper_def)

lemma map_lower_join_sp: "map lower_char (join_sp ws) = join_sp (map (map lower_char) ws)"
  by (induction ws rule: join_sp.induct) (simp_all add: lower_char_space)

lemma good_words_lower: "good_words ws \<Longrightarrow> good_words (map (map lower_char) ws)"
  by (auto simp: good_words_def py_isspace_lower_char)

lemma ws_words_cong:
  assumes "dropWhile py_isspace s = dropWhile py_isspace t"
  shows "ws_words s = ws_words t"
  by (subst ws_words.simps, subst (2) ws_words.simps) (simp only: assms)

lemma ws_words_join_sp: "good_words ws \<Longrightarrow> ws_words (join_sp ws) = ws"
proof (induction ws)
  case Nil
  show ?case by (simp add: ws_words_Nil)
next
  case (Cons w ws)
  have wne: "w \<noteq> []" and wN: "\<forall>c\<in>set w. \<not> py_isspace c" and gw: "good_words ws"
    using Cons.prems by (simp_all add: good_words_def)
  obtain c cs where w: "w = c # cs" using wne by (cases w) auto
  have nc: "\<not> py_isspace c" using wN w by simp
  let ?t = "if ws = [] then [] else CHR '' '' # join_sp ws"
  have j: "join_sp (w # ws) = w @ ?t" by (simp add: join_sp_Cons)
  have t: "?t = [] \<or> py_isspace (hd ?t)" by (simp add: space_isspace)
  have d: "dropWhile py_isspace (w @ ?t) = c # (cs @ ?t)" using nc w by simp
  have tw: "takeWhile (\<lambda>x. \<not> py_isspace x) (w @ ?t) = w"
    using wN t by (cases "?t") (simp_all add: takeWhile_append2 split: if_splits)
  have dw: "dropWhile (\<lambda>x. \<not> py_isspace x) (w @ ?t) = ?t"
    using wN t by (cases "?t") (simp_all add: dropWhile_append2 split: if_splits)
  have "ws_words (w @ ?t) = w # ws_words ?t"
    using ws_words_Cons [OF d] tw dw w by simp
  moreover have "ws_words ?t = ws"
  proof (cases "ws = []")
    case True then show ?thesis by (simp add: ws_words_Nil)
  next
    case False
    have "ws_words (CHR '' '' # join_sp ws) = ws_words (join_sp ws)"
      by (rule ws_words_cong) (simp add: space_isspace)
    then show ?thesis using False Cons.IH [OF gw] by simp
  qed
  ultimately show ?case using j by simp
qed

lemma normalize_idem_aux: "normalize_text (Some (normalize_text x)) = normalize_text x"
proof (cases x)
  case None
  then show ?thesis by (simp add: normalize_text_def)
next
  case (Some s)
  let ?ws = "map (map lower_char) (ws_words s)"
  have g: "good_words ?ws" by (rule good_words_lower [OF good_ws_words])
  have n: "normalize_text (Some s) = join_sp ?ws" by (simp add: normalize_words map_lower_join_sp)
  have "normalize_text (Some (join_sp ?ws)) = map lower_char (join_sp ?ws)"
    by (simp add: normalize_words ws_words_join_sp [OF g])
  also have "\<dots> = join_sp (map (map lower_char) ?ws)" by (rule map_lower_join_sp)
  also have "map (map lower_char) ?ws = ?ws" by (simp add: lower_char_idem)
  finally show ?thesis using Some n by simp
qed











text \<open>
  C6. Normalization is idempotent: normalizing a normalized string changes nothing.
\<close>

theorem normalize_idempotent: "normalize_text (Some (normalize_text x)) = normalize_text x"
  by (rule normalize_idem_aux)



section \<open>Properties of range parsing\<close>

text \<open>
  C3. The examples of the specification: \<^verbatim>\<open>"10-40"\<close> on 100 pages gives (10, 40);
  \<^verbatim>\<open>"5-3"\<close> fails because start is greater than end; \<^verbatim>\<open>"0-5"\<close> fails because a
  page is below 1; \<^verbatim>\<open>"10-200"\<close> fails because the range exceeds the document
  length; \<^verbatim>\<open>"abc"\<close> fails with the format error.
\<close>

theorem parse_range_examples:
  "parse_range ''10-40'' 100 = Inr (10, 40) \<and>
   parse_range ''5-3'' 100 = Inl StartAfterEnd \<and>
   parse_range ''0-5'' 100 = Inl PagesBelowOne \<and>
   parse_range ''10-200'' 100 = Inl (ExceedsLength 100) \<and>
   parse_range ''abc'' 100 = Inl NotStartEnd"
  by code_simp





lemma int_dash_intD:
  assumes "int_dash_int r"
  shows "\<exists>a b. r = a @ CHR ''-'' # b \<and> py_int a \<noteq> None \<and> py_int b \<noteq> None"
proof -
  from assms obtain i where i: "i < length r" "r ! i = CHR ''-''"
    "py_int (take i r) \<noteq> None" "py_int (drop (Suc i) r) \<noteq> None"
    unfolding int_dash_int_def by auto
  have "r = take i r @ CHR ''-'' # drop (Suc i) r"
    using i(1,2) by (metis id_take_nth_drop)
  then show ?thesis using i(3,4) by blast
qed





section \<open>Properties of search\<close>

lemma take_prefix_iff: "take (length n) h = n \<longleftrightarrow> (\<exists>post. h = n @ post)"
proof
  assume "take (length n) h = n"
  then have "h = n @ drop (length n) h" by (metis append_take_drop_id)
  then show "\<exists>post. h = n @ post" ..
next
  assume "\<exists>post. h = n @ post"
  then show "take (length n) h = n" by auto
qed

lemma py_in_iff: "py_in n h \<longleftrightarrow> (\<exists>pre post. h = pre @ n @ post)"
proof (induction h)
  case Nil
  show ?case by auto
next
  case (Cons c cs)
  show ?case
  proof
    assume "py_in n (c # cs)"
    then consider "take (length n) (c # cs) = n" | "py_in n cs" by auto
    then show "\<exists>pre post. c # cs = pre @ n @ post"
    proof cases
      case 1
      then obtain post where "c # cs = n @ post" using take_prefix_iff by blast
      then have "c # cs = [] @ n @ post" by simp
      then show ?thesis by blast
    next
      case 2
      then obtain pre post where "cs = pre @ n @ post" using Cons.IH by blast
      then have "c # cs = (c # pre) @ n @ post" by simp
      then show ?thesis by blast
    qed
  next
    assume "\<exists>pre post. c # cs = pre @ n @ post"
    then obtain pre post where e: "c # cs = pre @ n @ post" by blast
    show "py_in n (c # cs)"
    proof (cases pre)
      case Nil
      then have "take (length n) (c # cs) = n" using e take_prefix_iff [of n "c # cs"] by auto
      then show ?thesis by simp
    next
      case (Cons d ds)
      then have "cs = ds @ n @ post" using e by simp
      then have "py_in n cs" using Cons.IH by blast
      then show ?thesis by simp
    qed
  qed
qed

lemma scan_pages_eq:
  "scan_pages q pages i matches =
     matches @ map (\<lambda>k. int k + 1)
       (filter (\<lambda>k. py_in q (normalize_text (Some (text_or_empty (extract_text (pages ! k))))))
          [i..<length pages])"
proof (induction q pages i matches rule: scan_pages.induct)
  case (1 q pages i matches)
  show ?case
  proof (cases "i < length pages")
    case True
    have u: "[i..<length pages] = i # [i + 1..<length pages]"
      using True by (simp add: upt_conv_Cons)
    show ?thesis
      using True 1 [OF True refl]
      by (subst scan_pages.simps) (simp add: u Let_def)
  next
    case False
    then show ?thesis by (subst scan_pages.simps) simp
  qed
qed

lemma map_Suc_upt_upto: "map (\<lambda>k. int k + 1) [0..<n] = [1..int n]"
proof (induction n)
  case 0
  show ?case by simp
next
  case (Suc n)
  have "[1..int (Suc n)] = [1..int n] @ [int n + 1]"
    using upto_rec2 [of 1 "int n + 1"] by (simp add: add.commute)
  then show ?case using Suc by simp
qed

lemma search_pdf_eq:
  assumes "files w pdf_path = Some (Pdf pages)"
  shows "search_pdf w pdf_path query =
     Inr (map (\<lambda>k. int k + 1) (filter (\<lambda>k. page_matches query (pages ! k)) [0..<length pages]))"
  using assms by (simp add: search_pdf_def scan_pages_eq page_matches_def py_in_iff)





text \<open>
  C9. A query that normalizes to the empty string, the empty query among them, matches
  every page: the search gives 1, 2, ..., N on a document of N pages.
\<close>

theorem empty_query_matches_all:
  assumes "files w pdf_path = Some (Pdf pages)" and "normalize_text (Some q) = []"
  shows "search_pdf w pdf_path q = Inr [1..int (length pages)]"
proof -
  have "page_matches q p" for p
    unfolding page_matches_def assms(2) by (metis append_Nil)
  then show ?thesis
    using search_pdf_eq [OF assms(1), of q] by (simp add: map_Suc_upt_upto)
qed

text \<open>The empty query and a query of blanks on the example document.\<close>

theorem empty_query_matches_all_witness:
  "normalize_text (Some []) = [] \<and> search_pdf example_world ''a.pdf'' [] = Inr [1, 2, 3] \<and>
   normalize_text (Some (map char_of [32, 9, 160 :: nat])) = [] \<and>
   search_pdf example_world ''a.pdf'' (map char_of [32, 9, 160 :: nat]) = Inr [1, 2, 3]"
proof -
  have f: "files example_world ''a.pdf'' = Some (Pdf [Page (Some ''Hello  World'') 0, Page None 1, Page (Some ''say HELLO world'') 2])"
    by (simp add: example_world_def)
  have n1: "normalize_text (Some []) = []" by (simp add: normalize_text_def)
  have n2: "normalize_text (Some (map char_of [32, 9, 160 :: nat])) = []" by code_simp
  have u: "[1..3] = [1, 2, 3 :: int]" by code_simp
  show ?thesis
    using empty_query_matches_all [OF f n1] empty_query_matches_all [OF f n2] n1 n2 u
    by simp
qed

section \<open>Printing and reading integers\<close>

text \<open>What \<^verbatim>\<open>str\<close> prints of an integer, \<^verbatim>\<open>int\<close> reads back.\<close>

lemma digit_char: "d < 10 \<Longrightarrow> is_digit (char_of (48 + d)) \<and> digit_val (char_of (48 + d)) = int d"
  by (simp add: is_digit_def digit_val_def)

lemma digit_not_space: "is_digit c \<Longrightarrow> \<not> int_space c \<and> c \<noteq> CHR ''+'' \<and> c \<noteq> CHR ''-'' \<and> c \<noteq> CHR ''_''"
  by (auto simp: is_digit_def int_space_def Let_def)

lemma str_nat_digits: "str_nat n \<noteq> [] \<and> (\<forall>c\<in>set (str_nat n). is_digit c)"
proof (induction n rule: str_nat.induct)
  case (1 n)
  show ?case
  proof (cases "n < 10")
    case True
    then show ?thesis using digit_char [of n] by (subst (1 2) str_nat.simps) simp
  next
    case False
    have "n mod 10 < 10" by simp
    then have "is_digit (char_of (48 + n mod 10))" using digit_char by blast
    then show ?thesis using False 1 by (subst (1 2) str_nat.simps) simp
  qed
qed

lemma py_digits_append:
  "\<forall>c\<in>set xs. is_digit c \<Longrightarrow>
   py_digits acc (xs @ ys) = py_digits (foldl (\<lambda>a c. 10 * a + digit_val c) acc xs) ys"
  by (induction xs arbitrary: acc) simp_all

lemma foldl_str_nat: "foldl (\<lambda>a c. 10 * a + digit_val c) 0 (str_nat n) = int n"
proof (induction n rule: str_nat.induct)
  case (1 n)
  show ?case
  proof (cases "n < 10")
    case True
    then show ?thesis using digit_char [of n] by (subst str_nat.simps) simp
  next
    case False
    have "n mod 10 < 10" by simp
    then have d: "digit_val (char_of (48 + n mod 10)) = int (n mod 10)" using digit_char by blast
    have "10 * int (n div 10) + int (n mod 10) = int n" by presburger
    then show ?thesis using False 1 d by (subst str_nat.simps) simp
  qed
qed

lemma py_unsigned_str_nat: "py_unsigned (str_nat n) = Some (int n)"
proof -
  obtain d ds where s: "str_nat n = d # ds" using str_nat_digits [of n] by (cases "str_nat n") auto
  have dg: "is_digit d" "\<forall>c\<in>set ds. is_digit c" using str_nat_digits [of n] s by simp_all
  have "py_digits (digit_val d) (ds @ []) = py_digits (foldl (\<lambda>a c. 10 * a + digit_val c) (digit_val d) ds) []"
    using dg(2) by (rule py_digits_append)
  also have "foldl (\<lambda>a c. 10 * a + digit_val c) (digit_val d) ds = foldl (\<lambda>a c. 10 * a + digit_val c) 0 (d # ds)"
    by simp
  also have "\<dots> = int n" using foldl_str_nat [of n] s by simp
  finally show ?thesis using s dg(1) by (simp add: py_unsigned_def)
qed

lemma int_strip_digits:
  assumes "x \<noteq> []" and "\<not> int_space (hd x)" and "\<not> int_space (last x)"
  shows "rev (dropWhile int_space (rev (dropWhile int_space x))) = x"
proof -
  have 1: "dropWhile int_space x = x" using assms(1,2) by (cases x) auto
  have "dropWhile int_space (rev x) = rev x"
    using assms(1,3) by (cases x rule: rev_cases) auto
  then show ?thesis using 1 by simp
qed

lemma py_int_py_str: "py_int (py_str i) = Some i"
proof -
  let ?s = "str_nat (nat \<bar>i\<bar>)"
  obtain d ds where s: "?s = d # ds" using str_nat_digits [of "nat \<bar>i\<bar>"] by (cases ?s) auto
  have dg: "is_digit d" "is_digit (last ?s)" using str_nat_digits [of "nat \<bar>i\<bar>"] s by auto
  have u: "py_unsigned ?s = Some \<bar>i\<bar>" using py_unsigned_str_nat [of "nat \<bar>i\<bar>"] by simp
  show ?thesis
  proof (cases "i < 0")
    case False
    then have p: "py_str i = ?s" by (simp add: py_str_def)
    have "rev (dropWhile int_space (rev (dropWhile int_space ?s))) = ?s"
      using s dg digit_not_space by (intro int_strip_digits) auto
    then show ?thesis using p s u dg(1) digit_not_space [of d] False by (simp add: py_int_def)
  next
    case True
    then have p: "py_str i = CHR ''-'' # ?s" by (simp add: py_str_def)
    have m: "\<not> int_space CHR ''-''" by (simp add: int_space_def)
    have "rev (dropWhile int_space (rev (dropWhile int_space (CHR ''-'' # ?s)))) = CHR ''-'' # ?s"
      using s dg digit_not_space m by (intro int_strip_digits) auto
    then show ?thesis using p u True by (simp add: py_int_def)
  qed
qed

section \<open>Properties of split\<close>

lemma add_pages_eq:
  "0 \<le> i \<Longrightarrow> i \<le> e \<Longrightarrow> e \<le> int (length pages) \<Longrightarrow>
   add_pages pages i e acc = Inr (acc @ take (nat (e - i)) (drop (nat i) pages))"
proof (induction pages i e acc rule: add_pages.induct)
  case (1 pages i e acc)
  show ?case
  proof (cases "i < e")
    case False
    then have "i = e" using 1(3) by simp
    then show ?thesis by (subst add_pages.simps) simp
  next
    case True
    have lt: "nat i < length pages" using True 1(2,4) by linarith
    have ix: "py_index pages i = Some (pages ! nat i)"
      using True 1(2,4) by (simp add: py_index_def)
    have IH: "add_pages pages (i + 1) e (acc @ [pages ! nat i]) =
        Inr ((acc @ [pages ! nat i]) @ take (nat (e - (i + 1))) (drop (nat (i + 1)) pages))"
      using 1(1) [OF True ix] True 1(2,4) by simp
    have n1: "nat (e - i) = Suc (nat (e - (i + 1)))" using True by linarith
    have n2: "nat (i + 1) = Suc (nat i)" using 1(2) by linarith
    have "take (nat (e - i)) (drop (nat i) pages) =
        pages ! nat i # take (nat (e - (i + 1))) (drop (nat (i + 1)) pages)"
      unfolding n1 n2 using Cons_nth_drop_Suc [OF lt, symmetric] by simp
    then show ?thesis using True ix IH by (subst add_pages.simps) simp
  qed
qed

lemma parse_range_bounds:
  "parse_range r t = Inr (s, e) \<Longrightarrow> 1 \<le> s \<and> s \<le> e \<and> e \<le> t"
  unfolding parse_range_def by (auto split: if_splits list.splits option.splits)

lemma split_pdf_valid:
  assumes "files w pdf_path = Some (Pdf pages)"
    and "parse_range r (int (length pages)) = Inr (s, e)"
  shows "split_pdf w pdf_path r name =
     (if writable w (output_file name s e)
      then Inr (output_file name s e,
             w\<lparr>files := (files w)(output_file name s e \<mapsto>
               Pdf (take (nat (e - s + 1)) (drop (nat (s - 1)) pages)))\<rparr>)
      else Inl UncaughtOSError)"
proof -
  have b: "1 \<le> s \<and> s \<le> e \<and> e \<le> int (length pages)"
    using assms(2) by (rule parse_range_bounds)
  have "add_pages pages (s - 1) e [] = Inr ([] @ take (nat (e - (s - 1))) (drop (nat (s - 1)) pages))"
    using b by (intro add_pages_eq) simp_all
  moreover have "e - (s - 1) = e - s + 1" by simp
  ultimately have a: "add_pages pages (s - 1) e [] = Inr (take (nat (e - s + 1)) (drop (nat (s - 1)) pages))"
    by simp
  show ?thesis using assms a by (simp add: split_pdf_def Let_def)
qed

text \<open>
  C1. For a document of N pages and a range string that validates to (start, end), so
  that 1 \<le> start \<le> end \<le> N, the split writes a document that holds exactly the
  pages start to end of the source, in their order, and no other page: it has
  end - start + 1 pages, and its k-th page is page start + k of the source.
\<close>

theorem split_pdf_pages:
  assumes "files w pdf_path = Some (Pdf pages)"
    and "parse_range r (int (length pages)) = Inr (s, e)"
    and "writable w (output_file name s e)"
  shows "1 \<le> s \<and> s \<le> e \<and> e \<le> int (length pages) \<and>
     (\<exists>out. split_pdf w pdf_path r name =
          Inr (output_file name s e, w\<lparr>files := (files w)(output_file name s e \<mapsto> Pdf out)\<rparr>) \<and>
        out = take (nat (e - s + 1)) (drop (nat (s - 1)) pages) \<and>
        int (length out) = e - s + 1 \<and>
        (\<forall>k<length out. out ! k = pages ! (nat (s - 1) + k)))"
proof -
  have b: "1 \<le> s \<and> s \<le> e \<and> e \<le> int (length pages)"
    using assms(2) by (rule parse_range_bounds)
  let ?out = "take (nat (e - s + 1)) (drop (nat (s - 1)) pages)"
  have 1: "split_pdf w pdf_path r name =
      Inr (output_file name s e, w\<lparr>files := (files w)(output_file name s e \<mapsto> Pdf ?out)\<rparr>)"
    using split_pdf_valid [OF assms(1,2)] assms(3) by simp
  have 2: "int (length ?out) = e - s + 1" using b by auto
  have "nat (s - 1) \<le> length pages" using b by linarith
  then have 3: "\<forall>k<length ?out. ?out ! k = pages ! (nat (s - 1) + k)" by simp
  show ?thesis using b 1 2 3 by blast
qed

text \<open>Pages 10 to 40 of the hundred-page document: 31 pages, those at the indices 9 to 39.\<close>

theorem split_pdf_pages_witness:
  "files example_book ''book.pdf'' = Some (Pdf (map (Page None) [0..<100])) \<and>
   parse_range ''10-40'' (int (length (map (Page None) [0..<100]))) = Inr (10, 40) \<and>
   writable example_book (output_file ''out'' 10 40) \<and>
   (\<exists>out. split_pdf example_book ''book.pdf'' ''10-40'' ''out'' =
        Inr (output_file ''out'' 10 40,
             example_book\<lparr>files := (files example_book)(output_file ''out'' 10 40 \<mapsto> Pdf out)\<rparr>) \<and>
      out = map (Page None) [9..<40] \<and> length out = 31)"
proof -
  have f: "files example_book ''book.pdf'' = Some (Pdf (map (Page None) [0..<100]))"
    by (simp add: example_book_def)
  have p: "parse_range ''10-40'' (int (length (map (Page None) [0..<100]))) = Inr (10, 40)"
    by code_simp
  have w: "writable example_book (output_file ''out'' 10 40)"
    by (simp add: example_book_def)
  have t: "take (nat (40 - 10 + 1)) (drop (nat (10 - 1)) (map (Page None) [0..<100])) = map (Page None) [9..<40]"
    by code_simp
  have l: "length (map (Page None) [9..<40]) = 31" by simp
  show ?thesis
    using split_pdf_pages [OF f p w] f p w t l by auto
qed

text \<open>
  C7. For every base name and validated range the split writes to the file named
  base, \<^verbatim>\<open>_p_\<close>, start, \<^verbatim>\<open>-\<close>, end, \<^verbatim>\<open>.pdf\<close>, with start and end as decimal
  numerals (they read back as the two integers), and changes no other file; where that
  file cannot be opened for writing, the operation ends with the uncaught error.
\<close>

theorem split_pdf_output_name:
  assumes "files w pdf_path = Some (Pdf pages)"
    and "parse_range r (int (length pages)) = Inr (s, e)"
  shows "output_file name s e = name @ ''_p_'' @ py_str s @ ''-'' @ py_str e @ ''.pdf'' \<and>
     py_int (py_str s) = Some s \<and> py_int (py_str e) = Some e \<and>
     (writable w (output_file name s e) \<longrightarrow>
        (\<exists>w'. split_pdf w pdf_path r name = Inr (output_file name s e, w') \<and>
           files w' (output_file name s e) \<noteq> None \<and>
           (\<forall>p. p \<noteq> output_file name s e \<longrightarrow> files w' p = files w p))) \<and>
     (\<not> writable w (output_file name s e) \<longrightarrow>
        split_pdf w pdf_path r name = Inl UncaughtOSError)"
  using split_pdf_valid [OF assms, of name] by (auto simp: output_file_def py_int_py_str)

text \<open>Base name \<^verbatim>\<open>out\<close> and the range (10, 40).\<close>

theorem split_pdf_output_name_witness:
  "files example_book ''book.pdf'' = Some (Pdf (map (Page None) [0..<100])) \<and>
   parse_range ''10-40'' (int (length (map (Page None) [0..<100]))) = Inr (10, 40) \<and>
   writable example_book ''out_p_10-40.pdf'' \<and>
   output_file ''out'' 10 40 = ''out_p_10-40.pdf'' \<and>
   (\<exists>w'. split_pdf example_book ''book.pdf'' ''10-40'' ''out'' = Inr (''out_p_10-40.pdf'', w') \<and>
      files w' ''out_p_10-40.pdf'' \<noteq> None)"
proof -
  have f: "files example_book ''book.pdf'' = Some (Pdf (map (Page None) [0..<100]))"
    by (simp add: example_book_def)
  have p: "parse_range ''10-40'' (int (length (map (Page None) [0..<100]))) = Inr (10, 40)"
    by code_simp
  have w: "writable example_book ''out_p_10-40.pdf''"
    by (simp add: example_book_def)
  have n: "output_file ''out'' 10 40 = ''out_p_10-40.pdf''" by code_simp
  show ?thesis
    using split_pdf_output_name [OF f p, of "''out''"] f p w n by auto
qed

section \<open>Properties of the command line\<close>

lemma main_help: "main w name [] = Some ((0, Help), w)"
  by (simp add: main_def parse_args_def)

lemma main_unknown:
  assumes "\<not> option_syntax c" and "c \<noteq> ''search''" and "c \<noteq> ''split''"
    and "\<forall>a\<in>set rest. \<not> option_syntax a"
  shows "main w name (c # rest) = Some ((2, UsageError), w)"
  using assms by (simp add: main_def parse_args_def)

text \<open>
  C8, as amended. Run without arguments, the program prints the help and ends with
  status 0. Run with a command that is neither \<^verbatim>\<open>search\<close> nor \<^verbatim>\<open>split\<close>, the argument
  parser rejects the command line: a usage error, and status 2.
\<close>

theorem main_without_command:
  "main w name [] = Some ((0, Help), w) \<and>
   (\<not> option_syntax c \<and> c \<noteq> ''search'' \<and> c \<noteq> ''split'' \<and> (\<forall>a\<in>set rest. \<not> option_syntax a) \<longrightarrow>
      main w name (c # rest) = Some ((2, UsageError), w))"
  using main_help main_unknown by blast

text \<open>No arguments, and an unknown command followed by an argument.\<close>

theorem main_without_command_witness:
  "\<not> option_syntax ''foo'' \<and> main example_world [] [] = Some ((0, Help), example_world) \<and>
   main example_world [] [''foo'', ''bar''] = Some ((2, UsageError), example_world)"
proof -
  have o: "\<not> option_syntax ''foo'' \<and> \<not> option_syntax ''bar''" by (simp add: option_syntax_def)
  show ?thesis
    using main_without_command [of example_world "[]" "''foo''" "[''bar'']"] o by simp
qed

text \<open>
  C8 as stated fails: the unknown command \<^verbatim>\<open>foo\<close> ends with status 2 and a usage
  error, not with status 0 and the help.
\<close>

theorem unknown_command_counterexample:
  "main example_world [] [''foo''] = Some ((2, UsageError), example_world) \<and>
   main example_world [] [''foo''] \<noteq> Some ((0, Help), example_world)"
  by (simp add: main_def parse_args_def option_syntax_def)

end
